theory Spec2Isabelle
  imports Main "HOL-Library.Word"
begin

section \<open>JavaScript values used by static/js/main.js\<close>

text \<open>
  A JavaScript string is a sequence of UTF-16 code units. Literals of the source are
  ASCII and are written through \<open>js\<close>.
\<close>

type_synonym jschar = "16 word"
type_synonym jsstring = "jschar list"

definition js :: "string \<Rightarrow> jsstring" where
  "js s = map (\<lambda>c. of_nat (of_char c)) s"

text \<open>
  Exceptions are values. \<open>TypeError\<close> is what reading a property of \<open>null\<close> or
  \<open>undefined\<close> throws; \<open>SyntaxError\<close> is what \<open>document.querySelector\<close> throws on a
  malformed selector.
\<close>

datatype js_error = TypeError | SyntaxError

section \<open>The host's markup parser and serialiser\<close>

text \<open>
  Reading \<open>element.innerHTML\<close> serialises the element's children to markup; assigning to
  it parses the markup and replaces the children by the result. Both algorithms belong to
  the browser, so they are parameters: a host is any pair of them, over any type \<open>'dom\<close> of
  contents. Nothing is assumed of the pair; in particular parsing the serialisation of a
  content need not give that content back.
\<close>

record 'dom host =
  parse :: "jsstring \<Rightarrow> 'dom"
  serialize :: "'dom \<Rightarrow> jsstring"

text \<open>
  A host to run examples on. A content is held as its serialisation, and the parser does
  one thing the HTML parser does: it drops a line feed that comes right after a
  \<open><pre>\<close> start tag. On every other markup it is the identity.
\<close>

definition example_host :: "jsstring host" where
  "example_host =
     \<lparr>parse = (\<lambda>markup. if take 6 markup = js ''<pre>\<newline>''
                       then js ''<pre>'' @ drop 6 markup else markup),
      serialize = (\<lambda>content. content)\<rparr>"

section \<open>Loading state management (main.js, showLoading and hideLoading)\<close>

text \<open>
  What the two functions read and write of an element: its children, through
  \<open>element.innerHTML\<close> and the host's algorithms for this element;
  \<open>element.dataset.originalContent\<close> (\<open>None\<close> when the attribute is absent, that is
  \<open>undefined\<close>); and \<open>element.disabled\<close>. The argument of a call is \<open>Some\<close> element, or
  \<open>None\<close> for \<open>null\<close>/\<open>undefined\<close>, on which the first property access throws.
\<close>

record 'dom element =
  el_host :: "'dom host"
  children :: 'dom
  dataset_originalContent :: "jsstring option"
  disabled :: bool

definition innerHTML :: "'dom element \<Rightarrow> jsstring" where
  "innerHTML element = serialize (el_host element) (children element)"

definition set_innerHTML :: "jsstring \<Rightarrow> 'dom element \<Rightarrow> 'dom element" where
  "set_innerHTML markup element = element\<lparr>children := parse (el_host element) markup\<rparr>"

definition spinner :: jsstring where
  \<open>spinner = js ''<div class="spinner"></div>''\<close>

definition showLoading :: "'dom element option \<Rightarrow> js_error + 'dom element" where
  "showLoading arg =
     (case arg of
        None \<Rightarrow> Inl TypeError
      | Some element \<Rightarrow>
          (let originalContent = innerHTML element;
               element = element\<lparr>dataset_originalContent := Some originalContent\<rparr>;
               element = set_innerHTML spinner element;
               element = element\<lparr>disabled := True\<rparr>
           in Inr element))"

text \<open>
  \<open>if (originalContent)\<close> is JavaScript truthiness: \<open>undefined\<close> and the empty string
  are both falsy.
\<close>

definition truthy :: "jsstring option \<Rightarrow> bool" where
  "truthy v = (case v of None \<Rightarrow> False | Some s \<Rightarrow> s \<noteq> [])"

definition hideLoading :: "'dom element option \<Rightarrow> js_error + 'dom element" where
  "hideLoading arg =
     (case arg of
        None \<Rightarrow> Inl TypeError
      | Some element \<Rightarrow>
          (let originalContent = dataset_originalContent element;
               element =
                 (if truthy originalContent
                  then (case originalContent of
                          None \<Rightarrow> element
                        | Some c \<Rightarrow>
                            (set_innerHTML c element)\<lparr>dataset_originalContent := None\<rparr>)
                  else element);
               element = element\<lparr>disabled := False\<rparr>
           in Inr element))"

text \<open>An element on the example host, to run the two functions on.\<close>

definition example_element :: "jsstring \<Rightarrow> jsstring option \<Rightarrow> bool \<Rightarrow> jsstring element" where
  "example_element content stash dis =
     \<lparr>el_host = example_host, children = content, dataset_originalContent = stash,
      disabled = dis\<rparr>"

section \<open>Timers\<close>

text \<open>
  \<open>setTimeout\<close> and \<open>clearTimeout\<close> act on a queue of pending timers, each an
  identifier, the time it is due (in milliseconds on the page's clock) and its callback.
  A timer set at time \<open>c\<close> with delay \<open>d\<close> is due at \<open>c + d\<close>. The host runs, among the
  timers that are due, the one due first, and of two due together the one set first.

  The delay is not the number passed to \<open>setTimeout\<close> as it stands. The host takes that
  argument as a \<open>long\<close>: a whole number of milliseconds is reduced modulo \<open>2^32\<close> to a
  signed 32-bit integer, and a negative result counts as 0. So 2000 stays 2000, and
  \<open>2^31\<close> becomes 0.
\<close>

type_synonym 'k timers = "(nat \<times> nat \<times> 'k) list"

definition timer_delay :: "int \<Rightarrow> nat" where
  "timer_delay timeout = nat (max 0 (sint (word_of_int timeout :: 32 word)))"

definition clearTimeout :: "nat option \<Rightarrow> 'k timers \<Rightarrow> 'k timers" where
  "clearTimeout handle q =
     (case handle of None \<Rightarrow> q | Some i \<Rightarrow> filter (\<lambda>x. fst x \<noteq> i) q)"

fun earliest :: "'k timers \<Rightarrow> (nat \<times> nat \<times> 'k) option" where
  "earliest [] = None"
| "earliest (x # xs) =
     (case earliest xs of
        None \<Rightarrow> Some x
      | Some y \<Rightarrow> if fst (snd y) < fst (snd x) then Some y else Some x)"

definition next_due :: "nat \<Rightarrow> 'k timers \<Rightarrow> (nat \<times> nat \<times> 'k) option" where
  "next_due t q =
     (case earliest q of
        None \<Rightarrow> None
      | Some x \<Rightarrow> if fst (snd x) \<le> t then Some x else None)"

section \<open>The page: toasts and copy buttons (main.js, showToast and initializeCopyButtons)\<close>

text \<open>
  \<open>a || b\<close> on a value that is a string or \<open>undefined\<close>, with a string to fall back on.
\<close>

definition js_or :: "jsstring option \<Rightarrow> jsstring \<Rightarrow> jsstring" where
  "js_or a b = (if truthy a then (case a of None \<Rightarrow> b | Some s \<Rightarrow> s) else b)"

text \<open>
  The object literals of \<open>getToastClasses\<close> and \<open>getToastIcon\<close>, as association lists;
  \<open>obj[key]\<close> is \<open>map_of obj key\<close>, \<open>None\<close> standing for \<open>undefined\<close>. (Names inherited
  from \<open>Object.prototype\<close> are not keys of the lists.)
\<close>

definition toast_classes :: "(jsstring \<times> jsstring) list" where
  \<open>toast_classes =
     [(js ''success'', js ''border-green-200 text-green-800 bg-green-50''),
      (js ''error'', js ''border-red-200 text-red-800 bg-red-50''),
      (js ''warning'', js ''border-yellow-200 text-yellow-800 bg-yellow-50''),
      (js ''info'', js ''border-red-200 text-red-800 bg-red-50'')]\<close>

definition getToastClasses :: "jsstring \<Rightarrow> jsstring" where
  "getToastClasses type =
     js_or (map_of toast_classes type)
       (case map_of toast_classes (js ''info'') of None \<Rightarrow> js ''undefined'' | Some c \<Rightarrow> c)"

definition toast_icons :: "(jsstring \<times> jsstring) list" where
  \<open>toast_icons =
     [(js ''success'',
       js ''<svg class="w-5 h-5 text-green-600" fill="currentColor" viewBox="0 0 20 20"><path fill-rule="evenodd" d="M10 18a8 8 0 100-16 8 8 0 000 16zm3.707-9.293a1 1 0 00-1.414-1.414L9 10.586 7.707 9.293a1 1 0 00-1.414 1.414l2 2a1 1 0 001.414 0l4-4z" clip-rule="evenodd"></path></svg>''),
      (js ''error'',
       js ''<svg class="w-5 h-5 text-red-600" fill="currentColor" viewBox="0 0 20 20"><path fill-rule="evenodd" d="M18 10a8 8 0 11-16 0 8 8 0 0116 0zm-7 4a1 1 0 11-2 0 1 1 0 012 0zm-1-9a1 1 0 00-1 1v4a1 1 0 102 0V6a1 1 0 00-1-1z" clip-rule="evenodd"></path></svg>''),
      (js ''warning'',
       js ''<svg class="w-5 h-5 text-yellow-600" fill="currentColor" viewBox="0 0 20 20"><path fill-rule="evenodd" d="M8.257 3.099c.765-1.36 2.722-1.36 3.486 0l5.58 9.92c.75 1.334-.213 2.98-1.742 2.98H4.42c-1.53 0-2.493-1.646-1.743-2.98l5.58-9.92zM11 13a1 1 0 11-2 0 1 1 0 012 0zm-1-8a1 1 0 00-1 1v3a1 1 0 002 0V6a1 1 0 00-1-1z" clip-rule="evenodd"></path></svg>''),
      (js ''info'',
       js ''<svg class="w-5 h-5 text-red-600" fill="currentColor" viewBox="0 0 20 20"><path fill-rule="evenodd" d="M18 10a8 8 0 11-16 0 8 8 0 0116 0zm-7-4a1 1 0 11-2 0 1 1 0 012 0zM9 9a1 1 0 000 2v3a1 1 0 001 1h1a1 1 0 100-2v-3a1 1 0 00-1-1H9z" clip-rule="evenodd"></path></svg>'')]\<close>

definition getToastIcon :: "jsstring \<Rightarrow> jsstring" where
  "getToastIcon type =
     js_or (map_of toast_icons type)
       (case map_of toast_icons (js ''info'') of None \<Rightarrow> js ''undefined'' | Some c \<Rightarrow> c)"

text \<open>The template literal assigned to \<open>toast.innerHTML\<close>.\<close>

definition toast_markup :: "jsstring \<Rightarrow> jsstring \<Rightarrow> jsstring" where
  \<open>toast_markup icon message =
     js ''\<newline>        <div class="flex items-center space-x-2">\<newline>            ''
     @ icon
     @ js ''\<newline>            <span class="font-medium">''
     @ message
     @ js ''</span>\<newline>            <button onclick="this.parentElement.parentElement.remove()" class="ml-4 text-current hover:opacity-75">\<newline>                <svg class="w-4 h-4" fill="currentColor" viewBox="0 0 20 20">\<newline>                    <path fill-rule="evenodd" d="M4.293 4.293a1 1 0 011.414 0L10 8.586l4.293-4.293a1 1 0 111.414 1.414L11.414 10l4.293 4.293a1 1 0 01-1.414 1.414L10 11.414l-4.293 4.293a1 1 0 01-1.414-1.414L8.586 10 4.293 5.707a1 1 0 010-1.414z" clip-rule="evenodd"></path>\<newline>                </svg>\<newline>            </button>\<newline>        </div>\<newline>    ''\<close>

text \<open>The markup a copy button shows after a successful copy.\<close>

definition copied_markup :: jsstring where
  \<open>copied_markup =
     js ''<svg class="w-4 h-4" fill="currentColor" viewBox="0 0 20 20"><path fill-rule="evenodd" d="M16.707 5.293a1 1 0 010 1.414l-8 8a1 1 0 01-1.414 0l-4-4a1 1 0 011.414-1.414L8 12.586l7.293-7.293a1 1 0 011.414 0z" clip-rule="evenodd"></path></svg><span>Copied!</span>''\<close>

text \<open>
  Nodes are numbered; \<open>next_node\<close> is the number \<open>document.createElement\<close> gives next. The
  state holds what the handlers read and write: the clock and the pending timers, the
  children of \<open>document.body\<close> in order, each node's \<open>className\<close>, its own children
  (read and assigned as \<open>innerHTML\<close> through the host's serialiser and parser for that
  node), \<open>value\<close> (\<open>None\<close> when the element has no such property), \<open>textContent\<close> and
  \<open>dataset.copy\<close>, the answer of \<open>document.querySelector\<close> to each selector (\<open>Inl\<close> when it
  throws, \<open>Inr None\<close> for \<open>null\<close>), and the clipboard.
\<close>

type_synonym node = nat

datatype task = AutoRemove node | RestoreContent node jsstring

record 'dom page =
  clock :: nat
  pending :: "task timers"
  next_timer :: nat
  next_node :: node
  body_children :: "node list"
  node_className :: "node \<Rightarrow> jsstring"
  node_host :: "node \<Rightarrow> 'dom host"
  node_children :: "node \<Rightarrow> 'dom"
  node_value :: "node \<Rightarrow> jsstring option"
  node_textContent :: "node \<Rightarrow> jsstring"
  node_dataset_copy :: "node \<Rightarrow> jsstring option"
  querySelector :: "jsstring \<Rightarrow> js_error + node option"
  clipboard :: jsstring

definition node_innerHTML :: "'dom page \<Rightarrow> node \<Rightarrow> jsstring" where
  "node_innerHTML s n = serialize (node_host s n) (node_children s n)"

definition set_node_innerHTML :: "node \<Rightarrow> jsstring \<Rightarrow> 'dom page \<Rightarrow> 'dom page" where
  "set_node_innerHTML n markup s =
     s\<lparr>node_children := (node_children s)(n := parse (node_host s n) markup)\<rparr>"

definition document_body :: node where
  "document_body = 0"

definition parentElement :: "'dom page \<Rightarrow> node \<Rightarrow> node option" where
  "parentElement s n = (if n \<in> set (body_children s) then Some document_body else None)"

text \<open>\<open>n.remove()\<close>: a node without a parent stays as it is.\<close>

definition node_remove :: "node \<Rightarrow> 'dom page \<Rightarrow> 'dom page" where
  "node_remove n s = s\<lparr>body_children := filter (\<lambda>c. c \<noteq> n) (body_children s)\<rparr>"

definition appendChild :: "node \<Rightarrow> 'dom page \<Rightarrow> 'dom page" where
  "appendChild n s = s\<lparr>body_children := filter (\<lambda>c. c \<noteq> n) (body_children s) @ [n]\<rparr>"

definition setTimeout :: "task \<Rightarrow> int \<Rightarrow> 'dom page \<Rightarrow> 'dom page" where
  "setTimeout k delay s =
     s\<lparr>pending := pending s @ [(next_timer s, clock s + timer_delay delay, k)],
       next_timer := Suc (next_timer s)\<rparr>"

text \<open>
  \<open>showToast(message, type = 'info', duration = 3000)\<close>: an argument left out or
  \<open>undefined\<close> is \<open>None\<close> and takes its default.
\<close>

definition showToast ::
  "jsstring \<Rightarrow> jsstring option \<Rightarrow> int option \<Rightarrow> 'dom page \<Rightarrow> 'dom page" where
  "showToast message type_arg duration_arg s =
     (let type = (case type_arg of None \<Rightarrow> js ''info'' | Some t \<Rightarrow> t);
          duration = (case duration_arg of None \<Rightarrow> 3000 | Some d \<Rightarrow> d);
          toast = next_node s;
          s = s\<lparr>next_node := Suc toast\<rparr>;
          s = s\<lparr>node_className := (node_className s)(toast := js ''toast '' @ getToastClasses type)\<rparr>;
          icon = getToastIcon type;
          s = set_node_innerHTML toast (toast_markup icon message) s;
          s = appendChild toast s
      in setTimeout (AutoRemove toast) duration s)"

text \<open>
  The dismiss button of a toast runs \<open>this.parentElement.parentElement.remove()\<close>; in the
  template the button's parent is the flex container and that one's parent the toast.
\<close>

definition dismiss_click :: "node \<Rightarrow> 'dom page \<Rightarrow> 'dom page" where
  "dismiss_click toast s = node_remove toast s"

text \<open>
  The two timer callbacks: the auto-dismiss of \<open>showToast\<close>, and the restore of a copy
  button's content.
\<close>

definition run_task :: "task \<Rightarrow> 'dom page \<Rightarrow> 'dom page" where
  "run_task k s =
     (case k of
        AutoRemove toast \<Rightarrow>
          (if parentElement s toast \<noteq> None then node_remove toast s else s)
      | RestoreContent this originalText \<Rightarrow> set_node_innerHTML this originalText s)"

text \<open>
  Letting time pass until \<open>t\<close> with no other event: the due timers run in order, each at
  its due time (or at once when it is overdue), and the clock ends at \<open>t\<close>.
\<close>

function advance :: "nat \<Rightarrow> 'dom page \<Rightarrow> 'dom page" where
  "advance t s =
     (case next_due t (pending s) of
        None \<Rightarrow> s\<lparr>clock := max (clock s) t\<rparr>
      | Some x \<Rightarrow>
          advance t
            (run_task (snd (snd x))
               (s\<lparr>pending := remove1 x (pending s), clock := max (clock s) (fst (snd x))\<rparr>)))"
  by pat_completeness auto
termination
proof (relation "measure (\<lambda>(t, s). length (pending s))")
  show "wf (measure (\<lambda>(t, s). length (pending s)))"
    by simp
next
  fix t :: nat and s :: "'dom page" and x :: "nat \<times> nat \<times> task"
  assume due: "next_due t (pending s) = Some x"
  have mem: "earliest q = Some y \<Longrightarrow> y \<in> set q" for q :: "task timers" and y
    by (induction q arbitrary: y) (auto split: option.splits if_splits)
  have "x \<in> set (pending s)"
    using due mem [of "pending s" x]
    by (auto simp: next_due_def split: option.splits if_splits)
  then have "length (remove1 x (pending s)) < length (pending s)"
    by (simp add: length_remove1) (cases "pending s"; simp)
  moreover have "pending (run_task k s') = pending s'" for k and s' :: "'dom page"
    by (cases k) (simp_all add: run_task_def node_remove_def set_node_innerHTML_def)
  ultimately show
    "((t, run_task (snd (snd x))
            (s\<lparr>pending := remove1 x (pending s), clock := max (clock s) (fst (snd x))\<rparr>)),
      (t, s)) \<in> measure (\<lambda>(t, s). length (pending s))"
    by simp
qed

declare advance.simps [simp del]

text \<open>
  The click listener of a copy button, an \<open>async\<close> function. Up to the \<open>await\<close> it finds
  the target and the text; a selector that does not parse makes \<open>querySelector\<close> throw,
  and a missing target ends the handler. \<open>this.dataset.copy\<close> read as \<open>undefined\<close> is
  passed on as the selector \<open>undefined\<close>.
\<close>

definition textToCopy :: "'dom page \<Rightarrow> node \<Rightarrow> jsstring" where
  "textToCopy s targetElement =
     js_or (node_value s targetElement) (node_textContent s targetElement)"

definition copy_click_begin :: "node \<Rightarrow> 'dom page \<Rightarrow> js_error + jsstring option" where
  "copy_click_begin this s =
     (let targetSelector =
            (case node_dataset_copy s this of None \<Rightarrow> js ''undefined'' | Some sel \<Rightarrow> sel)
      in case querySelector s targetSelector of
           Inl e \<Rightarrow> Inl e
         | Inr None \<Rightarrow> Inr None
         | Inr (Some targetElement) \<Rightarrow> Inr (Some (textToCopy s targetElement)))"

text \<open>What follows the \<open>await\<close> when the write is fulfilled, and the \<open>catch\<close> branch.\<close>

definition copy_fulfilled :: "node \<Rightarrow> 'dom page \<Rightarrow> 'dom page" where
  "copy_fulfilled this s =
     (let s = showToast (js ''Copied to clipboard!'') (Some (js ''success'')) None s;
          originalText = node_innerHTML s this;
          s = set_node_innerHTML this copied_markup s
      in setTimeout (RestoreContent this originalText) 2000 s)"

definition copy_rejected :: "node \<Rightarrow> 'dom page \<Rightarrow> 'dom page" where
  "copy_rejected this s =
     showToast (js ''Failed to copy to clipboard'') (Some (js ''error'')) None s"

text \<open>
  The whole handler with nothing else running between the call of \<open>writeText\<close> and its
  settling; \<open>write_ok\<close> says whether the clipboard accepts the write.
\<close>

definition copy_click :: "bool \<Rightarrow> node \<Rightarrow> 'dom page \<Rightarrow> js_error + 'dom page" where
  "copy_click write_ok this s =
     (case copy_click_begin this s of
        Inl e \<Rightarrow> Inl e
      | Inr None \<Rightarrow> Inr s
      | Inr (Some text) \<Rightarrow>
          if write_ok then Inr (copy_fulfilled this (s\<lparr>clipboard := text\<rparr>))
          else Inr (copy_rejected this s))"

text \<open>
  Two pages to run the handlers on: node 1 is a copy button labelled \<open>Copy\<close> that refers
  to node 2 by \<open>#ref-link\<close>; node 2 is an input holding a referral link, or, in the second
  page, a field whose value is empty and whose text content is the link. Every node is on
  the example host.
\<close>

definition example_page :: "jsstring page" where
  \<open>example_page =
     \<lparr>clock = 0, pending = [], next_timer = 0, next_node = 3, body_children = [1, 2],
      node_className = (\<lambda>n. []),
      node_host = (\<lambda>n. example_host),
      node_children = (\<lambda>n. if n = 1 then js ''Copy'' else []),
      node_value = (\<lambda>n. if n = 2 then Some (js ''https://example.com/ref/abc'') else None),
      node_textContent = (\<lambda>n. if n = 1 then js ''Copy'' else []),
      node_dataset_copy = (\<lambda>n. if n = 1 then Some (js ''#ref-link'') else None),
      querySelector = (\<lambda>sel. if sel = js ''#ref-link'' then Inr (Some 2) else Inr None),
      clipboard = []\<rparr>\<close>

definition cleared_page :: "jsstring page" where
  \<open>cleared_page =
     example_page
       \<lparr>node_value := (\<lambda>n. if n = 2 then Some [] else None),
        node_textContent :=
          (\<lambda>n. if n = 1 then js ''Copy'' else if n = 2 then js ''https://example.com/ref/abc''
                else [])\<rparr>\<close>

section \<open>Dropdowns (main.js, initializeDropdowns)\<close>

text \<open>
  What \<open>initializeDropdowns\<close> reads from the document once: the node list
  \<open>document.querySelectorAll('.group')\<close>, and for each of its nodes the results of
  \<open>dropdown.querySelector('button')\<close> and of the panel lookup (\<open>None\<close> for \<open>null\<close>). The
  state the listeners change is which nodes carry the class \<open>active\<close>.
\<close>

record dropdown_doc =
  dropdowns :: "node list"
  dd_button :: "node \<Rightarrow> node option"
  dd_menu :: "node \<Rightarrow> node option"

text \<open>The listener on a container's button, after \<open>e.stopPropagation()\<close>.\<close>

definition close_others :: "dropdown_doc \<Rightarrow> node \<Rightarrow> (node \<Rightarrow> bool) \<Rightarrow> (node \<Rightarrow> bool)" where
  "close_others doc dropdown active =
     fold (\<lambda>other a. if other \<noteq> dropdown then a(other := False) else a) (dropdowns doc) active"

definition trigger_listener :: "dropdown_doc \<Rightarrow> node \<Rightarrow> (node \<Rightarrow> bool) \<Rightarrow> (node \<Rightarrow> bool)" where
  "trigger_listener doc dropdown active =
     (let active = close_others doc dropdown active
      in active(dropdown := \<not> active dropdown))"

text \<open>The listener on the document.\<close>

definition document_listener :: "dropdown_doc \<Rightarrow> (node \<Rightarrow> bool) \<Rightarrow> (node \<Rightarrow> bool)" where
  "document_listener doc active =
     fold (\<lambda>dropdown a. a(dropdown := False)) (dropdowns doc) active"

text \<open>
  A button gets one listener for every container that found it as its button and has a
  panel, in the order of the node list.
\<close>

definition listeners_on :: "dropdown_doc \<Rightarrow> node \<Rightarrow> node list" where
  "listeners_on doc n =
     filter (\<lambda>dropdown. dd_button doc dropdown = Some n \<and> dd_menu doc dropdown \<noteq> None)
       (dropdowns doc)"

text \<open>
  A click, given the nodes from its target up to the root element. It bubbles until a node
  has trigger listeners: they all run and, propagation being stopped, nothing above runs.
  A click that meets none reaches the document.
\<close>

fun click :: "dropdown_doc \<Rightarrow> node list \<Rightarrow> (node \<Rightarrow> bool) \<Rightarrow> (node \<Rightarrow> bool)" where
  "click doc [] active = document_listener doc active"
| "click doc (n # path) active =
     (if listeners_on doc n = [] then click doc path active
      else fold (trigger_listener doc) (listeners_on doc n) active)"

text \<open>
  Two documents: containers 10 and 20 side by side, with buttons 11 and 21 and panels 12
  and 22; and container 20 nested in container 10, which has no button of its own before
  it, so that both find button 21 and panel 22.
\<close>

definition two_dropdowns :: dropdown_doc where
  "two_dropdowns =
     \<lparr>dropdowns = [10, 20],
      dd_button = (\<lambda>d. if d = 10 then Some 11 else if d = 20 then Some 21 else None),
      dd_menu = (\<lambda>d. if d = 10 then Some 12 else if d = 20 then Some 22 else None)\<rparr>"

definition nested_dropdowns :: dropdown_doc where
  "nested_dropdowns =
     \<lparr>dropdowns = [10, 20],
      dd_button = (\<lambda>d. if d = 10 \<or> d = 20 then Some 21 else None),
      dd_menu = (\<lambda>d. if d = 10 \<or> d = 20 then Some 22 else None)\<rparr>"

section \<open>Debounce (main.js, debounce)\<close>

text \<open>
  The closure \<open>debounce(func, wait)\<close> returns: \<open>wait\<close> (a whole number of
  milliseconds), the variable \<open>timeout\<close> (\<open>None\<close> while \<open>undefined\<close>), and around it the
  clock, the timers this wrapper has set (each holding the arguments its \<open>later\<close> closes
  over) and the handle the next \<open>setTimeout\<close> returns. The timer is due after the delay
  the host gives \<open>wait\<close>.
  \<open>func\<close> is opaque: \<open>calls\<close> lists its invocations in order, each by its arguments.
\<close>

record 'a debounced =
  db_wait :: int
  timeout :: "nat option"
  db_clock :: nat
  db_pending :: "'a timers"
  db_next_timer :: nat
  calls :: "'a list"



definition executedFunction :: "'a \<Rightarrow> 'a debounced \<Rightarrow> 'a debounced" where
  "executedFunction args s =
     (let s = s\<lparr>db_pending := clearTimeout (timeout s) (db_pending s)\<rparr>;
          handle = db_next_timer s;
          s = s\<lparr>db_pending :=
                  db_pending s @ [(handle, db_clock s + timer_delay (db_wait s), args)],
                db_next_timer := Suc handle\<rparr>
      in s\<lparr>timeout := Some handle\<rparr>)"




text \<open>
  The states the wrapper can be in: no timer of its own pending, or exactly one, and then
  the one \<open>timeout\<close> holds. The fresh wrapper is in such a state and every invocation and
  every timer that runs leaves it in one.
\<close>

definition wrapper_state :: "'a debounced \<Rightarrow> bool" where
  "wrapper_state s =
     (case db_pending s of
        [] \<Rightarrow> True
      | [x] \<Rightarrow> timeout s = Some (fst x)
      | _ \<Rightarrow> False)"


section \<open>Strings: whitespace and trimming\<close>

definition chr :: "char \<Rightarrow> jschar" where
  "chr c = of_nat (of_char c)"

text \<open>
  The code units that \<open>\s\<close> matches in a regular expression without the \<open>u\<close> flag, which
  are also the ones \<open>String.prototype.trim\<close> removes: the white space and line terminator
  code points of ECMAScript.
\<close>

definition is_space :: "jschar \<Rightarrow> bool" where
  "is_space c \<longleftrightarrow>
     c \<in> set [0x09, 0x0A, 0x0B, 0x0C, 0x0D, 0x20, 0xA0, 0x1680, 0x2028, 0x2029, 0x202F,
              0x205F, 0x3000, 0xFEFF]
     \<or> (0x2000 \<le> c \<and> c \<le> 0x200A)"

definition trim :: "jsstring \<Rightarrow> jsstring" where
  "trim s = rev (dropWhile is_space (rev (dropWhile is_space s)))"

section \<open>Regular expressions\<close>

text \<open>
  The regular expressions of the source use character classes, concatenation and the
  quantifiers \<open>?\<close>, \<open>+\<close> and \<open>{0,n}\<close>, between \<open>^\<close> and \<open>$\<close> and with no flag, so
  \<open>regex.test(s)\<close> asks whether the whole of \<open>s\<close> matches. Matching is by derivatives
  over a core of six constructors; the quantifiers are written in that core.
\<close>

datatype 'c regex =
    Zero
  | One
  | Chars "'c \<Rightarrow> bool"
  | Alt "'c regex" "'c regex"
  | Then "'c regex" "'c regex"
  | Star "'c regex"

definition Optional :: "'c regex \<Rightarrow> 'c regex" where
  "Optional r = Alt r One"

definition OneOrMore :: "'c regex \<Rightarrow> 'c regex" where
  "OneOrMore r = Then r (Star r)"

fun AtMost :: "nat \<Rightarrow> 'c regex \<Rightarrow> 'c regex" where
  "AtMost 0 r = One"
| "AtMost (Suc n) r = Optional (Then r (AtMost n r))"

fun nullable :: "'c regex \<Rightarrow> bool" where
  "nullable Zero = False"
| "nullable One = True"
| "nullable (Chars p) = False"
| "nullable (Alt r s) = (nullable r \<or> nullable s)"
| "nullable (Then r s) = (nullable r \<and> nullable s)"
| "nullable (Star r) = True"

fun deriv :: "'c \<Rightarrow> 'c regex \<Rightarrow> 'c regex" where
  "deriv c Zero = Zero"
| "deriv c One = Zero"
| "deriv c (Chars p) = (if p c then One else Zero)"
| "deriv c (Alt r s) = Alt (deriv c r) (deriv c s)"
| "deriv c (Then r s) =
     (if nullable r then Alt (Then (deriv c r) s) (deriv c s) else Then (deriv c r) s)"
| "deriv c (Star r) = Then (deriv c r) (Star r)"

fun matches :: "'c regex \<Rightarrow> 'c list \<Rightarrow> bool" where
  "matches r [] = nullable r"
| "matches r (c # cs) = matches (deriv c r) cs"



section \<open>Form validation (main.js, validateField and its helpers)\<close>

text \<open>\<open>/^[^\s@]+@[^\s@]+\.[^\s@]+$/\<close>\<close>

definition emailRegex :: "jschar regex" where
  "emailRegex =
     Then (OneOrMore (Chars (\<lambda>c. \<not> (is_space c \<or> c = chr CHR ''@''))))
    (Then (Chars (\<lambda>c. c = chr CHR ''@''))
    (Then (OneOrMore (Chars (\<lambda>c. \<not> (is_space c \<or> c = chr CHR ''@''))))
    (Then (Chars (\<lambda>c. c = chr CHR ''.''))
          (OneOrMore (Chars (\<lambda>c. \<not> (is_space c \<or> c = chr CHR ''@'')))))))"

definition isValidEmail :: "jsstring \<Rightarrow> bool" where
  "isValidEmail email = matches emailRegex email"

text \<open>\<open>/^[\+]?[1-9][\d]{0,15}$/\<close>, tested on \<open>phone.replace(/\s/g, '')\<close>\<close>

definition is_digit :: "jschar \<Rightarrow> bool" where
  "is_digit c \<longleftrightarrow> chr CHR ''0'' \<le> c \<and> c \<le> chr CHR ''9''"

definition phoneRegex :: "jschar regex" where
  "phoneRegex =
     Then (Optional (Chars (\<lambda>c. c = chr CHR ''+'')))
    (Then (Chars (\<lambda>c. chr CHR ''1'' \<le> c \<and> c \<le> chr CHR ''9''))
          (AtMost 15 (Chars is_digit)))"

definition isValidPhone :: "jsstring \<Rightarrow> bool" where
  "isValidPhone phone = matches phoneRegex (filter (\<lambda>c. \<not> is_space c) phone)"

text \<open>
  A form field: \<open>field.value\<close>, \<open>field.type\<close>, \<open>field.name\<close>, \<open>field.required\<close>,
  \<open>field.classList\<close>, and the text of the \<open>.field-error\<close> element of its parent (\<open>None\<close>
  when the parent has none). Each field is taken to have a parent of its own.
\<close>

record field =
  fld_value :: jsstring
  fld_type :: jsstring
  fld_name :: jsstring
  fld_required :: bool
  fld_classList :: "jsstring list"
  fld_error :: "jsstring option"

definition class_add :: "jsstring \<Rightarrow> jsstring list \<Rightarrow> jsstring list" where
  "class_add c cs = (if c \<in> set cs then cs else cs @ [c])"

definition class_remove :: "jsstring \<Rightarrow> jsstring list \<Rightarrow> jsstring list" where
  "class_remove c cs = filter (\<lambda>x. x \<noteq> c) cs"

definition showFieldError :: "field \<Rightarrow> jsstring \<Rightarrow> field" where
  "showFieldError field message =
     (let field = field\<lparr>fld_classList :=
            class_add (js ''ring-red-500'') (class_add (js ''border-red-500'') (fld_classList field))\<rparr>;
          field = field\<lparr>fld_classList := class_remove (js ''border-red-300'') (fld_classList field)\<rparr>
      in field\<lparr>fld_error := Some message\<rparr>)"

definition clearFieldError :: "field \<Rightarrow> field" where
  "clearFieldError field =
     (let field = field\<lparr>fld_classList :=
            class_remove (js ''ring-red-500'')
              (class_remove (js ''border-red-500'') (fld_classList field))\<rparr>;
          field = field\<lparr>fld_classList := class_add (js ''border-red-300'') (fld_classList field)\<rparr>
      in field\<lparr>fld_error := None\<rparr>)"

text \<open>
  The \<open>switch (type)\<close> of \<open>validateField\<close>: the message of the branch that fails, or \<open>None\<close>
  when the branch ends in \<open>break\<close> or no branch applies.
\<close>

definition type_rule :: "field \<Rightarrow> jsstring \<Rightarrow> jsstring option" where
  "type_rule field value =
     (if fld_type field = js ''email'' then
        (if \<not> isValidEmail value then Some (js ''Please enter a valid email address'') else None)
      else if fld_type field = js ''password'' then
        (if fld_name field = js ''password1'' \<and> length value < 8
         then Some (js ''Password must be at least 8 characters long'') else None)
      else if fld_type field = js ''tel'' then
        (if \<not> isValidPhone value then Some (js ''Please enter a valid phone number'') else None)
      else None)"

text \<open>
  \<open>validateField(field)\<close> returns its boolean and leaves the field's error state changed.
  \<open>password1\<close> is what \<open>document.querySelector('input[name="password1"]')\<close> finds when the
  function runs: \<open>None\<close> for \<open>null\<close>, otherwise the current value of that input.
\<close>

definition validateField :: "jsstring option \<Rightarrow> field \<Rightarrow> bool \<times> field" where
  "validateField password1 field =
     (let value = trim (fld_value field);
          required = fld_required field;
          field = clearFieldError field
      in if required \<and> value = [] then (False, showFieldError field (js ''This field is required''))
         else if value \<noteq> [] then
           (case type_rule field value of
              Some message \<Rightarrow> (False, showFieldError field message)
            | None \<Rightarrow>
                if fld_name field = js ''password2'' then
                  (case password1 of
                     None \<Rightarrow> (True, field)
                   | Some password1_value \<Rightarrow>
                       if value \<noteq> password1_value
                       then (False, showFieldError field (js ''Passwords do not match''))
                       else (True, field))
                else (True, field))
         else (True, field))"



text \<open>
  Fields to run validation on: a confirmation field of type \<open>password\<close> named
  \<open>password2\<close>, and a field of a given type under another name; neither is required.
\<close>

definition confirm_field :: "jsstring \<Rightarrow> field" where
  "confirm_field v =
     \<lparr>fld_value = v, fld_type = js ''password'', fld_name = js ''password2'',
      fld_required = False, fld_classList = [], fld_error = None\<rparr>"


section \<open>Properties of the loading toggle\<close>

lemma hideLoading_Some:
  "hideLoading (Some el) =
     Inr (if truthy (dataset_originalContent el)
          then el\<lparr>children := parse (el_host el) (the (dataset_originalContent el)),
                   dataset_originalContent := None, disabled := False\<rparr>
          else el\<lparr>disabled := False\<rparr>)"
  by (simp add: hideLoading_def set_innerHTML_def truthy_def split: option.splits)

lemma showLoading_Some:
  "showLoading (Some el) =
     Inr (el\<lparr>children := parse (el_host el) spinner,
              dataset_originalContent := Some (serialize (el_host el) (children el)),
              disabled := True\<rparr>)"
  by (simp add: showLoading_def set_innerHTML_def innerHTML_def)

lemma example_host_parse:
  "parse example_host spinner = spinner" "parse example_host [] = []"
  "parse example_host (js ''Save'') = js ''Save''"
  "parse example_host (js ''<pre>\<newline>foo</pre>'') = js ''<pre>foo</pre>''"
  "serialize example_host c = c"
  by (simp_all add: example_host_def spinner_def js_def)

text \<open>
  C10. \<open>hideLoading(element)\<close> returns normally with \<open>disabled\<close> set to \<open>false\<close> whatever
  the stash slot holds; the content is replaced, by what the stashed markup parses to, and
  the slot cleared exactly when the slot holds a non-empty string, and otherwise both are
  left as they were.
\<close>

theorem hideLoading_disabled_unconditional:
  "\<exists>el'. hideLoading (Some el) = Inr el' \<and> disabled el' = False \<and>
     el_host el' = el_host el \<and>
     (\<forall>c. dataset_originalContent el = Some c \<and> c \<noteq> [] \<longrightarrow>
        children el' = parse (el_host el) c \<and>
        innerHTML el' = serialize (el_host el) (parse (el_host el) c) \<and>
        dataset_originalContent el' = None) \<and>
     (dataset_originalContent el = None \<or> dataset_originalContent el = Some [] \<longrightarrow>
        children el' = children el \<and> innerHTML el' = innerHTML el \<and>
        dataset_originalContent el' = dataset_originalContent el)"
  by (auto simp: hideLoading_Some truthy_def innerHTML_def)

theorem hideLoading_disabled_unconditional_witness:
  "hideLoading (Some (example_element spinner (Some (js ''Save'')) True))
     = Inr (example_element (js ''Save'') None False) \<and>
   hideLoading (Some (example_element (js ''Save'') None True))
     = Inr (example_element (js ''Save'') None False) \<and>
   hideLoading (Some (example_element spinner (Some []) True))
     = Inr (example_element spinner (Some []) False)"
proof -
  have ne: "js ''Save'' \<noteq> []" by (simp add: js_def)
  from hideLoading_disabled_unconditional [of "example_element spinner (Some (js ''Save'')) True"]
  obtain a where a: "hideLoading (Some (example_element spinner (Some (js ''Save'')) True)) = Inr a"
    "disabled a = False" "el_host a = example_host" "children a = js ''Save''"
    "dataset_originalContent a = None"
    using ne by (auto simp: example_element_def example_host_parse)
  from hideLoading_disabled_unconditional [of "example_element (js ''Save'') None True"]
  obtain b where b: "hideLoading (Some (example_element (js ''Save'') None True)) = Inr b"
    "disabled b = False" "el_host b = example_host" "children b = js ''Save''"
    "dataset_originalContent b = None"
    by (auto simp: example_element_def)
  from hideLoading_disabled_unconditional [of "example_element spinner (Some []) True"]
  obtain c where c: "hideLoading (Some (example_element spinner (Some []) True)) = Inr c"
    "disabled c = False" "el_host c = example_host" "children c = spinner"
    "dataset_originalContent c = Some []"
    by (auto simp: example_element_def)
  from a b c show ?thesis by (simp add: example_element_def)
qed

text \<open>
  C3, as stated, fails three times. An element whose content serialises to the empty
  string keeps the spinner after the round trip, because the stashed empty string is
  falsy. \<open>hideLoading\<close> on a disabled element with nothing stashed is not a no-op, because
  it always re-enables the element. And what comes back is what the stashed markup parses
  to: a \<open><pre>\<close> whose text starts with a line feed comes back without the line feed.
\<close>

theorem loading_round_trip_counterexample:
  "showLoading (Some (example_element [] None False))
     = Inr (example_element spinner (Some []) True) \<and>
   hideLoading (Some (example_element spinner (Some []) True))
     = Inr (example_element spinner (Some []) False) \<and>
   spinner \<noteq> [] \<and>
   hideLoading (Some (example_element (js ''Save'') None True))
     = Inr (example_element (js ''Save'') None False) \<and>
   showLoading (Some (example_element (js ''<pre>\<newline>foo</pre>'') None False))
     = Inr (example_element spinner (Some (js ''<pre>\<newline>foo</pre>'')) True) \<and>
   hideLoading (Some (example_element spinner (Some (js ''<pre>\<newline>foo</pre>'')) True))
     = Inr (example_element (js ''<pre>foo</pre>'') None False) \<and>
   js ''<pre>foo</pre>'' \<noteq> js ''<pre>\<newline>foo</pre>''"
proof -
  have ne: "spinner \<noteq> []" "js ''<pre>\<newline>foo</pre>'' \<noteq> []"
    "js ''<pre>foo</pre>'' \<noteq> js ''<pre>\<newline>foo</pre>''"
    by (simp_all add: spinner_def js_def)
  show ?thesis
    using ne
    by (simp add: showLoading_Some hideLoading_Some truthy_def example_element_def
        example_host_parse)
qed

text \<open>
  C3, amended. For an element whose content does not serialise to the empty string,
  \<open>showLoading\<close> followed by \<open>hideLoading\<close> returns normally, leaves as content what the
  serialisation of the original content parses to, which is the original content exactly
  when that content survives being serialised and parsed again, and clears the stash
  slot; a further \<open>hideLoading\<close> changes nothing. On an element with nothing stashed,
  \<open>hideLoading\<close> returns normally and leaves content and slot alone; its only effect is to
  set \<open>disabled\<close> to \<open>false\<close>.
\<close>

theorem loading_round_trip:
  "(innerHTML el \<noteq> [] \<longrightarrow>
      (\<exists>el1 el2. showLoading (Some el) = Inr el1 \<and> hideLoading (Some el1) = Inr el2 \<and>
         children el2 = parse (el_host el) (serialize (el_host el) (children el)) \<and>
         (children el2 = children el \<longleftrightarrow>
            parse (el_host el) (serialize (el_host el) (children el)) = children el) \<and>
         dataset_originalContent el2 = None \<and> disabled el2 = False \<and>
         el_host el2 = el_host el \<and> hideLoading (Some el2) = Inr el2)) \<and>
   (dataset_originalContent el = None \<longrightarrow>
      hideLoading (Some el) = Inr (el\<lparr>disabled := False\<rparr>))"
  by (simp add: showLoading_Some hideLoading_Some truthy_def innerHTML_def)

theorem loading_round_trip_witness:
  "(\<exists>el1 el2.
      showLoading (Some (example_element (js ''Save'') None False)) = Inr el1 \<and>
      hideLoading (Some el1) = Inr el2 \<and> children el2 = js ''Save'' \<and>
      dataset_originalContent el2 = None \<and> disabled el2 = False \<and>
      hideLoading (Some el2) = Inr el2) \<and>
   hideLoading (Some (example_element (js ''Save'') None False))
     = Inr (example_element (js ''Save'') None False)"
proof -
  have ne: "innerHTML (example_element (js ''Save'') None False) \<noteq> []"
    by (simp add: innerHTML_def example_element_def example_host_parse js_def)
  have st: "dataset_originalContent (example_element (js ''Save'') None False) = None"
    by (simp add: example_element_def)
  from loading_round_trip [of "example_element (js ''Save'') None False"] ne st
  show ?thesis
    by (auto simp: example_element_def example_host_parse)
qed

section \<open>Properties of the timers, the toasts and the copy buttons\<close>

lemma earliest_mem: "earliest q = Some y \<Longrightarrow> y \<in> set q"
  by (induction q arbitrary: y) (auto split: option.splits if_splits)

lemma earliest_None: "earliest q = None \<longleftrightarrow> q = []"
  by (cases q) (auto split: option.splits)

lemma earliest_least: "earliest q = Some y \<Longrightarrow> x \<in> set q \<Longrightarrow> fst (snd y) \<le> fst (snd x)"
proof (induction q arbitrary: y)
  case Nil
  then show ?case by simp
next
  case (Cons a q)
  show ?case
  proof (cases "earliest q")
    case None
    then have "q = []" by (simp add: earliest_None)
    with Cons.prems show ?thesis by simp
  next
    case (Some z)
    have z: "x \<in> set q \<Longrightarrow> fst (snd z) \<le> fst (snd x)"
      using Cons.IH [OF Some] .
    from Cons.prems Some z show ?thesis
      by (auto split: if_splits)
  qed
qed

lemma next_due_Some: "next_due t q = Some x \<Longrightarrow> x \<in> set q \<and> fst (snd x) \<le> t"
  by (auto simp: next_due_def earliest_mem split: option.splits if_splits)

lemma next_due_None: "next_due t q = None \<Longrightarrow> x \<in> set q \<Longrightarrow> t < fst (snd x)"
  using earliest_least [of q _ x]
  by (fastforce simp: next_due_def earliest_None split: option.splits if_splits)

lemma timer_delay_in_range: "0 \<le> w \<Longrightarrow> w < 2147483648 \<Longrightarrow> timer_delay w = nat w"
  by (simp add: timer_delay_def sint_sbintrunc' signed_take_bit_int_eq_self)

lemma timer_delay_literals: "timer_delay 2000 = 2000" "timer_delay 3000 = 3000"
  by (simp_all add: timer_delay_def)

lemma set_node_innerHTML_fields:
  "node_children (set_node_innerHTML n markup s) =
     (node_children s)(n := parse (node_host s n) markup)"
  "node_host (set_node_innerHTML n markup s) = node_host s"
  "pending (set_node_innerHTML n markup s) = pending s"
  "body_children (set_node_innerHTML n markup s) = body_children s"
  "node_className (set_node_innerHTML n markup s) = node_className s"
  "clock (set_node_innerHTML n markup s) = clock s"
  "next_timer (set_node_innerHTML n markup s) = next_timer s"
  "next_node (set_node_innerHTML n markup s) = next_node s"
  "clipboard (set_node_innerHTML n markup s) = clipboard s"
  by (simp_all add: set_node_innerHTML_def)

lemma showToast_fields:
  "body_children (showToast m ty d s) =
     filter (\<lambda>c. c \<noteq> next_node s) (body_children s) @ [next_node s]"
  "pending (showToast m ty d s) =
     pending s @ [(next_timer s, clock s + timer_delay (case d of None \<Rightarrow> 3000 | Some n \<Rightarrow> n),
                   AutoRemove (next_node s))]"
  "node_className (showToast m ty d s) =
     (node_className s)
       (next_node s := js ''toast '' @ getToastClasses (case ty of None \<Rightarrow> js ''info'' | Some k \<Rightarrow> k))"
  "node_children (showToast m ty d s) =
     (node_children s)
       (next_node s := parse (node_host s (next_node s))
          (toast_markup (getToastIcon (case ty of None \<Rightarrow> js ''info'' | Some k \<Rightarrow> k)) m))"
  "node_host (showToast m ty d s) = node_host s"
  "clock (showToast m ty d s) = clock s"
  "next_timer (showToast m ty d s) = Suc (next_timer s)"
  "next_node (showToast m ty d s) = Suc (next_node s)"
  "clipboard (showToast m ty d s) = clipboard s"
  by (simp_all add: showToast_def Let_def appendChild_def setTimeout_def
      set_node_innerHTML_def)

lemma run_task_children_other:
  "(\<forall>v. k \<noteq> RestoreContent b v) \<Longrightarrow> node_children (run_task k s) b = node_children s b"
  by (cases k) (auto simp: run_task_def node_remove_def set_node_innerHTML_def)

lemma run_task_pending: "pending (run_task k s) = pending s"
  by (cases k) (simp_all add: run_task_def node_remove_def set_node_innerHTML_def)

lemma run_task_host: "node_host (run_task k s) = node_host s"
  by (cases k) (simp_all add: run_task_def node_remove_def set_node_innerHTML_def)

lemma advance_host: "node_host (advance t s) = node_host s"
proof (induction t s rule: advance.induct)
  case (1 t s)
  show ?case
  proof (cases "next_due t (pending s)")
    case None
    then show ?thesis by (simp add: advance.simps [of t s])
  next
    case (Some x)
    with "1.IH" [OF Some] show ?thesis
      by (simp add: advance.simps [of t s] run_task_host)
  qed
qed

lemma advance_children_unchanged:
  "(\<forall>x\<in>set (pending s). fst (snd x) \<le> t \<longrightarrow> (\<forall>v. snd (snd x) \<noteq> RestoreContent b v)) \<Longrightarrow>
   node_children (advance t s) b = node_children s b"
proof (induction t s rule: advance.induct)
  case (1 t s)
  show ?case
  proof (cases "next_due t (pending s)")
    case None
    then show ?thesis by (simp add: advance.simps [of t s])
  next
    case (Some x)
    let ?s' = "run_task (snd (snd x))
                 (s\<lparr>pending := remove1 x (pending s), clock := max (clock s) (fst (snd x))\<rparr>)"
    from Some have x: "x \<in> set (pending s)" "fst (snd x) \<le> t"
      using next_due_Some by blast+
    with "1.prems" have nx: "\<forall>v. snd (snd x) \<noteq> RestoreContent b v" by blast
    have sub: "set (pending ?s') \<subseteq> set (pending s)"
      by (simp add: run_task_pending set_remove1_subset)
    have "node_children (advance t ?s') b = node_children ?s' b"
      using "1.IH" [OF Some] "1.prems" sub by blast
    also have "\<dots> = node_children s b"
      using nx by (simp add: run_task_children_other)
    finally show ?thesis using Some by (simp add: advance.simps [of t s])
  qed
qed

lemma advance_children_restored:
  "(\<forall>x\<in>set (pending s). fst (snd x) \<le> t \<longrightarrow> (\<forall>w. snd (snd x) = RestoreContent b w \<longrightarrow> w = v)) \<Longrightarrow>
   (\<exists>x\<in>set (pending s). fst (snd x) \<le> t \<and> snd (snd x) = RestoreContent b v)
     \<or> node_children s b = parse (node_host s b) v \<Longrightarrow>
   node_children (advance t s) b = parse (node_host s b) v"
proof (induction t s rule: advance.induct)
  case (1 t s)
  show ?case
  proof (cases "next_due t (pending s)")
    case None
    then have "\<forall>x\<in>set (pending s). t < fst (snd x)"
      using next_due_None by blast
    with "1.prems"(2) have "node_children s b = parse (node_host s b) v" by fastforce
    with None show ?thesis by (simp add: advance.simps [of t s])
  next
    case (Some x)
    let ?before = "s\<lparr>pending := remove1 x (pending s), clock := max (clock s) (fst (snd x))\<rparr>"
    let ?s' = "run_task (snd (snd x)) ?before"
    from Some have x: "x \<in> set (pending s)" "fst (snd x) \<le> t"
      using next_due_Some by blast+
    have host: "node_host ?s' = node_host s"
      by (simp add: run_task_host)
    have sub: "set (pending ?s') \<subseteq> set (pending s)"
      by (simp add: run_task_pending set_remove1_subset)
    have p1: "\<forall>y\<in>set (pending ?s'). fst (snd y) \<le> t \<longrightarrow>
                (\<forall>w. snd (snd y) = RestoreContent b w \<longrightarrow> w = v)"
      using "1.prems"(1) sub by blast
    have p2: "(\<exists>y\<in>set (pending ?s'). fst (snd y) \<le> t \<and> snd (snd y) = RestoreContent b v)
                \<or> node_children ?s' b = parse (node_host ?s' b) v"
    proof (cases "\<exists>w. snd (snd x) = RestoreContent b w")
      case True
      then obtain w where w: "snd (snd x) = RestoreContent b w" by blast
      with "1.prems"(1) x have "w = v" by blast
      with w show ?thesis by (simp add: run_task_def set_node_innerHTML_def)
    next
      case False
      then have same: "node_children ?s' b = node_children s b"
        by (simp add: run_task_children_other)
      from "1.prems"(2) show ?thesis
      proof
        assume "\<exists>y\<in>set (pending s). fst (snd y) \<le> t \<and> snd (snd y) = RestoreContent b v"
        then obtain y where y: "y \<in> set (pending s)" "fst (snd y) \<le> t"
          "snd (snd y) = RestoreContent b v" by blast
        with False have "y \<noteq> x" by auto
        with y(1) have "y \<in> set (remove1 x (pending s))" by simp
        then have "y \<in> set (pending ?s')" by (simp add: run_task_pending)
        with y show ?thesis by blast
      next
        assume "node_children s b = parse (node_host s b) v"
        with same host show ?thesis by simp
      qed
    qed
    have "node_children (advance t ?s') b = parse (node_host ?s' b) v"
      using "1.IH" [OF Some p1 p2] .
    then show ?thesis using Some host by (simp add: advance.simps [of t s])
  qed
qed

lemma copy_fulfilled_fields:
  "pending (copy_fulfilled this s) =
     pending s @ [(next_timer s, clock s + 3000, AutoRemove (next_node s)),
                  (Suc (next_timer s), clock s + 2000,
                   RestoreContent this
                     (node_innerHTML
                        (showToast (js ''Copied to clipboard!'') (Some (js ''success'')) None s)
                        this))]"
  "node_children (copy_fulfilled this s) this = parse (node_host s this) copied_markup"
  "this \<noteq> next_node s \<Longrightarrow> node_children (copy_fulfilled this s) (next_node s) =
     parse (node_host s (next_node s))
       (toast_markup (getToastIcon (js ''success'')) (js ''Copied to clipboard!''))"
  "node_className (copy_fulfilled this s) =
     (node_className s)(next_node s := js ''toast '' @ getToastClasses (js ''success''))"
  "body_children (copy_fulfilled this s) =
     filter (\<lambda>c. c \<noteq> next_node s) (body_children s) @ [next_node s]"
  "node_host (copy_fulfilled this s) = node_host s"
  "clipboard (copy_fulfilled this s) = clipboard s"
  "clock (copy_fulfilled this s) = clock s"
  by (simp_all add: copy_fulfilled_def Let_def setTimeout_def showToast_fields
      set_node_innerHTML_fields timer_delay_literals)

lemma node_innerHTML_after_toast:
  "this \<noteq> next_node s \<Longrightarrow>
   node_innerHTML (showToast m ty d s) this = node_innerHTML s this"
  by (simp add: node_innerHTML_def showToast_fields)

lemma node_remove_absent: "parentElement s n = None \<Longrightarrow> node_remove n s = s"
proof -
  assume "parentElement s n = None"
  then have "n \<notin> set (body_children s)"
    by (simp add: parentElement_def split: if_splits)
  then have "filter (\<lambda>c. c \<noteq> n) (body_children s) = body_children s"
    by (induction "body_children s") (auto simp: filter_id_conv)
  then show ?thesis by (simp add: node_remove_def)
qed

lemma parentElement_removed: "parentElement (node_remove n s) n = None"
  by (simp add: parentElement_def node_remove_def)

lemma example_page_values:
  "next_node example_page = 3" "clock example_page = 0"
  "body_children example_page = [1, 2]" "node_children example_page 1 = js ''Copy''"
  "node_host example_page n = example_host" "pending example_page = []"
  "next_timer example_page = 0"
  by (simp_all add: example_page_def)

text \<open>
  C4. The timer that \<open>showToast\<close> sets is the auto-dismiss of the toast it has just
  appended. Once that toast is out of the document, by its dismiss button or otherwise,
  the callback finds no parent and leaves the page exactly as it is; removing a node that
  has no parent changes nothing either. Neither step has a failing operation.
\<close>

theorem toast_auto_dismiss_after_removal:
  "pending (showToast message type duration (s :: 'dom page)) =
     pending s @ [(next_timer s,
                   clock s + timer_delay (case duration of None \<Rightarrow> 3000 | Some d \<Rightarrow> d),
                   AutoRemove (next_node s))] \<and>
   parentElement (showToast message type duration s) (next_node s) = Some document_body \<and>
   (\<forall>s' :: 'dom page.
         parentElement (dismiss_click (next_node s) s') (next_node s) = None \<and>
         run_task (AutoRemove (next_node s)) (dismiss_click (next_node s) s')
           = dismiss_click (next_node s) s') \<and>
   (\<forall>s' :: 'dom page. parentElement s' (next_node s) = None \<longrightarrow>
         run_task (AutoRemove (next_node s)) s' = s' \<and> node_remove (next_node s) s' = s') \<and>
   (\<forall>d. 0 \<le> d \<and> d < 2147483648 \<longrightarrow> timer_delay d = nat d)"
  by (simp add: showToast_fields parentElement_removed node_remove_absent dismiss_click_def
      run_task_def timer_delay_in_range) (simp add: parentElement_def showToast_fields)

theorem toast_auto_dismiss_after_removal_witness:
  "pending (showToast (js ''Saved'') (Some (js ''success'')) None example_page)
     = [(0, 3000, AutoRemove 3)] \<and>
   body_children (showToast (js ''Saved'') (Some (js ''success'')) None example_page) = [1, 2, 3] \<and>
   body_children
     (dismiss_click 3 (showToast (js ''Saved'') (Some (js ''success'')) None example_page)) = [1, 2] \<and>
   run_task (AutoRemove 3)
     (dismiss_click 3 (showToast (js ''Saved'') (Some (js ''success'')) None example_page))
     = dismiss_click 3 (showToast (js ''Saved'') (Some (js ''success'')) None example_page) \<and>
   parentElement example_page 3 = None \<and>
   run_task (AutoRemove 3) example_page = example_page"
proof -
  note t = toast_auto_dismiss_after_removal
    [of "js ''Saved''" "Some (js ''success'')" None example_page]
  have n: "next_node example_page = 3"
    by (simp add: example_page_def)
  have a: "parentElement example_page 3 = None"
    by (simp add: parentElement_def example_page_def)
  from t have "pending (showToast (js ''Saved'') (Some (js ''success'')) None example_page)
     = [(0, 3000, AutoRemove 3)]"
    by (simp add: example_page_values timer_delay_literals)
  moreover have
    "body_children (showToast (js ''Saved'') (Some (js ''success'')) None example_page) = [1, 2, 3]"
    by (simp add: showToast_fields example_page_def)
  moreover from this have
    "body_children
       (dismiss_click 3 (showToast (js ''Saved'') (Some (js ''success'')) None example_page)) = [1, 2]"
    by (simp add: dismiss_click_def node_remove_def)
  moreover from t n have "run_task (AutoRemove 3)
     (dismiss_click 3 (showToast (js ''Saved'') (Some (js ''success'')) None example_page))
     = dismiss_click 3 (showToast (js ''Saved'') (Some (js ''success'')) None example_page)"
    by simp
  moreover from t n a have "run_task (AutoRemove 3) example_page = example_page"
    by simp
  ultimately show ?thesis using a by simp
qed

text \<open>
  C9. When the element a copy button refers to has the empty string as its value, the
  string handed to the clipboard is the element's text content: \<open>value || textContent\<close>
  skips the falsy empty value.
\<close>

theorem copy_empty_value_copies_textContent:
  assumes "querySelector s
             (case node_dataset_copy s this of None \<Rightarrow> js ''undefined'' | Some sel \<Rightarrow> sel)
           = Inr (Some targetElement)"
      and "node_value s targetElement = Some []"
  shows "textToCopy s targetElement = node_textContent s targetElement \<and>
         copy_click_begin this s = Inr (Some (node_textContent s targetElement)) \<and>
         (\<exists>s'. copy_click True this s = Inr s' \<and>
               clipboard s' = node_textContent s targetElement)"
  using assms
  by (simp add: textToCopy_def js_or_def truthy_def copy_click_begin_def copy_click_def
      copy_fulfilled_fields)

theorem copy_empty_value_copies_textContent_witness:
  "node_value cleared_page 2 = Some [] \<and>
   textToCopy cleared_page 2 = js ''https://example.com/ref/abc'' \<and>
   copy_click_begin 1 cleared_page = Inr (Some (js ''https://example.com/ref/abc'')) \<and>
   (\<exists>s'. copy_click True 1 cleared_page = Inr s' \<and>
         clipboard s' = js ''https://example.com/ref/abc'')"
proof -
  have q: "querySelector cleared_page
             (case node_dataset_copy cleared_page 1 of None \<Rightarrow> js ''undefined''
              | Some sel \<Rightarrow> sel) = Inr (Some 2)"
    by (simp add: cleared_page_def example_page_def)
  have v: "node_value cleared_page 2 = Some []"
    by (simp add: cleared_page_def)
  have c: "node_textContent cleared_page 2 = js ''https://example.com/ref/abc''"
    by (simp add: cleared_page_def)
  show ?thesis
    using copy_empty_value_copies_textContent [OF q v] v c by simp
qed

lemma copy_click_found:
  "querySelector s
     (case node_dataset_copy s this of None \<Rightarrow> js ''undefined'' | Some sel \<Rightarrow> sel)
     = Inr (Some targetElement) \<Longrightarrow>
   copy_click True this s
     = Inr (copy_fulfilled this (s\<lparr>clipboard := textToCopy s targetElement\<rparr>))"
  by (simp add: copy_click_def copy_click_begin_def)

text \<open>
  C1, amended. For a copy button whose target is found and which has no restore of an
  earlier activation pending, a fulfilled clipboard write appends a success-level toast
  with the text \<open>Copied to clipboard!\<close>; the button holds what the confirmation markup
  parses to at every time before 2000 ms have passed; and from 2000 ms on it holds what
  the markup read from it at the swap parses to, which is the content it had before
  exactly when that content survives being serialised and parsed again.
\<close>

theorem copy_success_feedback:
  assumes found: "querySelector s
             (case node_dataset_copy s this of None \<Rightarrow> js ''undefined'' | Some sel \<Rightarrow> sel)
           = Inr (Some targetElement)"
      and old: "this < next_node s"
      and idle: "\<forall>x\<in>set (pending s). \<forall>v. snd (snd x) \<noteq> RestoreContent this v"
  shows "\<exists>s1. copy_click True this s = Inr s1 \<and>
           body_children s1 = filter (\<lambda>c. c \<noteq> next_node s) (body_children s) @ [next_node s] \<and>
           node_className s1 (next_node s) = js ''toast '' @ getToastClasses (js ''success'') \<and>
           node_children s1 (next_node s)
             = parse (node_host s (next_node s))
                 (toast_markup (getToastIcon (js ''success'')) (js ''Copied to clipboard!'')) \<and>
           node_children s1 this = parse (node_host s this) copied_markup \<and>
           (\<forall>t. t < clock s + 2000 \<longrightarrow>
                node_children (advance t s1) this = parse (node_host s this) copied_markup) \<and>
           (\<forall>t. clock s + 2000 \<le> t \<longrightarrow>
                node_children (advance t s1) this
                  = parse (node_host s this) (serialize (node_host s this) (node_children s this)) \<and>
                (node_children (advance t s1) this = node_children s this \<longleftrightarrow>
                   parse (node_host s this) (serialize (node_host s this) (node_children s this))
                     = node_children s this))"
proof -
  let ?start = "s\<lparr>clipboard := textToCopy s targetElement\<rparr>"
  let ?s1 = "copy_fulfilled this ?start"
  let ?saved = "serialize (node_host s this) (node_children s this)"
  from old have ne: "this \<noteq> next_node s" by simp
  have host: "node_host ?s1 = node_host s"
    by (simp add: copy_fulfilled_fields)
  have pend: "pending ?s1 =
     pending s @ [(next_timer s, clock s + 3000, AutoRemove (next_node s)),
                  (Suc (next_timer s), clock s + 2000, RestoreContent this ?saved)]"
    using ne node_innerHTML_after_toast [of this ?start]
    by (simp add: copy_fulfilled_fields node_innerHTML_def)
  have early: "node_children (advance t ?s1) this = parse (node_host s this) copied_markup"
    if "t < clock s + 2000" for t
  proof -
    have "\<forall>x\<in>set (pending ?s1). fst (snd x) \<le> t \<longrightarrow>
            (\<forall>v. snd (snd x) \<noteq> RestoreContent this v)"
      using idle that by (auto simp: pend)
    then have "node_children (advance t ?s1) this = node_children ?s1 this"
      by (rule advance_children_unchanged)
    then show ?thesis by (simp add: copy_fulfilled_fields)
  qed
  have late: "node_children (advance t ?s1) this = parse (node_host s this) ?saved"
    if "clock s + 2000 \<le> t" for t
  proof -
    have "node_children (advance t ?s1) this = parse (node_host ?s1 this) ?saved"
    proof (rule advance_children_restored)
      show "\<forall>x\<in>set (pending ?s1). fst (snd x) \<le> t \<longrightarrow>
              (\<forall>w. snd (snd x) = RestoreContent this w \<longrightarrow> w = ?saved)"
        using idle by (auto simp: pend)
      show "(\<exists>x\<in>set (pending ?s1). fst (snd x) \<le> t \<and>
                snd (snd x) = RestoreContent this ?saved)
            \<or> node_children ?s1 this = parse (node_host ?s1 this) ?saved"
        using that by (simp add: pend)
    qed
    then show ?thesis by (simp add: host)
  qed
  have "copy_click True this s = Inr ?s1"
    using found by (rule copy_click_found)
  moreover have "body_children ?s1
      = filter (\<lambda>c. c \<noteq> next_node s) (body_children s) @ [next_node s]"
    by (simp add: copy_fulfilled_fields)
  moreover have "node_className ?s1 (next_node s)
      = js ''toast '' @ getToastClasses (js ''success'')"
    by (simp add: copy_fulfilled_fields)
  moreover have "node_children ?s1 (next_node s)
      = parse (node_host s (next_node s))
          (toast_markup (getToastIcon (js ''success'')) (js ''Copied to clipboard!''))"
    using ne copy_fulfilled_fields(3) [of this ?start] by simp
  moreover have "node_children ?s1 this = parse (node_host s this) copied_markup"
    by (simp add: copy_fulfilled_fields)
  ultimately show ?thesis using early late by (intro exI [of _ ?s1]) simp
qed

lemma example_page_found:
  "querySelector example_page
     (case node_dataset_copy example_page 1 of None \<Rightarrow> js ''undefined'' | Some sel \<Rightarrow> sel)
   = Inr (Some 2)"
  by (simp add: example_page_def)

lemma example_host_parse_markup:
  "parse example_host copied_markup = copied_markup"
  "parse example_host (js ''Copy'') = js ''Copy''"
  "parse example_host (toast_markup icon m) = toast_markup icon m"
  by (simp_all add: example_host_def copied_markup_def toast_markup_def js_def)

theorem copy_success_feedback_witness:
  "\<exists>s1. copy_click True 1 example_page = Inr s1 \<and>
     body_children s1 = [1, 2, 3] \<and>
     node_className s1 3 = js ''toast border-green-200 text-green-800 bg-green-50'' \<and>
     node_children s1 1 = copied_markup \<and>
     node_children (advance 1999 s1) 1 = copied_markup \<and>
     node_children (advance 2000 s1) 1 = js ''Copy''"
proof -
  have old: "1 < next_node example_page"
    by (simp add: example_page_def)
  have idle: "\<forall>x\<in>set (pending example_page). \<forall>v. snd (snd x) \<noteq> RestoreContent 1 v"
    by (simp add: example_page_def)
  have cls: "js ''toast '' @ getToastClasses (js ''success'')
               = js ''toast border-green-200 text-green-800 bg-green-50''"
    by (simp add: getToastClasses_def toast_classes_def js_or_def truthy_def js_def)
  from copy_success_feedback [OF example_page_found old idle]
  obtain s1 where s1: "copy_click True 1 example_page = Inr s1"
    "body_children s1 = [1, 2, 3]"
    "node_className s1 3 = js ''toast '' @ getToastClasses (js ''success'')"
    "node_children s1 1 = copied_markup"
    "\<forall>t. t < 2000 \<longrightarrow> node_children (advance t s1) 1 = copied_markup"
    "\<forall>t. 2000 \<le> t \<longrightarrow> node_children (advance t s1) 1 = js ''Copy''"
    unfolding example_page_values example_host_parse example_host_parse_markup by auto
  from s1(5) have "node_children (advance 1999 s1) 1 = copied_markup" by simp
  moreover from s1(6) have "node_children (advance 2000 s1) 1 = js ''Copy''" by simp
  ultimately show ?thesis using s1(1-4) cls by simp
qed

text \<open>
  C1, as stated, fails: the confirmation toast is made with \<open>'success'\<close>, so it carries
  the green success classes and the success icon, not those of \<open>'info'\<close>. And what the
  timer puts back is what the saved markup parses to: a button whose content is a
  \<open><pre>\<close> with a leading line feed gets it back without the line feed.
\<close>

theorem copy_success_toast_counterexample:
  "(case copy_click True 1 example_page of
      Inl e \<Rightarrow> False
    | Inr s1 \<Rightarrow>
        node_className s1 3 = js ''toast border-green-200 text-green-800 bg-green-50'' \<and>
        js ''toast '' @ getToastClasses (js ''info'') = js ''toast border-red-200 text-red-800 bg-red-50'' \<and>
        node_children s1 3 \<noteq> toast_markup (getToastIcon (js ''info'')) (js ''Copied to clipboard!'')) \<and>
   (case copy_click True 1
           (example_page\<lparr>node_children := (\<lambda>n. if n = 1 then js ''<pre>\<newline>Copy</pre>'' else [])\<rparr>) of
      Inl e \<Rightarrow> False
    | Inr s1 \<Rightarrow> node_children (advance 2000 s1) 1 = js ''<pre>Copy</pre>'') \<and>
   js ''<pre>Copy</pre>'' \<noteq> js ''<pre>\<newline>Copy</pre>''"
proof -
  have cls: "js ''toast '' @ getToastClasses (js ''success'')
               = js ''toast border-green-200 text-green-800 bg-green-50''"
    by (simp add: getToastClasses_def toast_classes_def js_or_def truthy_def js_def)
  have info: "js ''toast '' @ getToastClasses (js ''info'')
               = js ''toast border-red-200 text-red-800 bg-red-50''"
    by (simp add: getToastClasses_def toast_classes_def js_or_def truthy_def js_def)
  have icons: "getToastIcon (js ''success'') \<noteq> getToastIcon (js ''info'')"
    by (simp add: getToastIcon_def toast_icons_def js_or_def truthy_def js_def)
  have mk: "node_children
              (copy_fulfilled 1 (example_page\<lparr>clipboard := textToCopy example_page 2\<rparr>)) 3
            = toast_markup (getToastIcon (js ''success'')) (js ''Copied to clipboard!'')"
    using copy_fulfilled_fields(3)
      [of 1 "example_page\<lparr>clipboard := textToCopy example_page 2\<rparr>"]
    by (simp add: example_page_values example_host_parse_markup)
  have inj: "toast_markup a m = toast_markup b m \<longleftrightarrow> a = b" for a b m
    unfolding toast_markup_def by simp
  have cc: "copy_click True 1 example_page
              = Inr (copy_fulfilled 1 (example_page\<lparr>clipboard := textToCopy example_page 2\<rparr>))"
    by (rule copy_click_found [OF example_page_found])
  have first: "(case copy_click True 1 example_page of
      Inl e \<Rightarrow> False
    | Inr s1 \<Rightarrow>
        node_className s1 3 = js ''toast border-green-200 text-green-800 bg-green-50'' \<and>
        js ''toast '' @ getToastClasses (js ''info'') = js ''toast border-red-200 text-red-800 bg-red-50'' \<and>
        node_children s1 3 \<noteq> toast_markup (getToastIcon (js ''info'')) (js ''Copied to clipboard!''))"
    unfolding cc using cls info icons mk
    by (simp add: copy_fulfilled_fields inj example_page_values)
  let ?p = "example_page\<lparr>node_children := (\<lambda>n. if n = 1 then js ''<pre>\<newline>Copy</pre>'' else [])\<rparr>"
  have found: "querySelector ?p
     (case node_dataset_copy ?p 1 of None \<Rightarrow> js ''undefined'' | Some sel \<Rightarrow> sel) = Inr (Some 2)"
    by (simp add: example_page_def)
  have old: "1 < next_node ?p" by (simp add: example_page_def)
  have idle: "\<forall>x\<in>set (pending ?p). \<forall>v. snd (snd x) \<noteq> RestoreContent 1 v"
    by (simp add: example_page_def)
  have pre: "parse example_host (js ''<pre>\<newline>Copy</pre>'') = js ''<pre>Copy</pre>''"
    "js ''<pre>Copy</pre>'' \<noteq> js ''<pre>\<newline>Copy</pre>''"
    by (simp_all add: example_host_def js_def)
  from copy_success_feedback [OF found old idle]
  obtain s1 where s1: "copy_click True 1 ?p = Inr s1"
    "\<forall>t. clock ?p + 2000 \<le> t \<longrightarrow>
        node_children (advance t s1) 1
          = parse (node_host ?p 1) (serialize (node_host ?p 1) (node_children ?p 1))"
    by auto
  have "clock ?p = 0" "node_host ?p 1 = example_host"
    "node_children ?p 1 = js ''<pre>\<newline>Copy</pre>''"
    by (simp_all add: example_page_def)
  with s1(2) pre have "node_children (advance 2000 s1) 1 = js ''<pre>Copy</pre>''"
    by (simp add: example_host_parse)
  with s1(1) have second: "(case copy_click True 1 ?p of
      Inl e \<Rightarrow> False
    | Inr s1 \<Rightarrow> node_children (advance 2000 s1) 1 = js ''<pre>Copy</pre>'')"
    by simp
  from first second pre(2) show ?thesis by simp
qed

text \<open>
  Why the amended C1 asks for no pending restore: a second activation 1000 ms after the
  first reads the confirmation markup as the original, so the first timer restores the
  label at 2000 ms and the second puts the confirmation back at 3000 ms, for good.
\<close>

lemma copy_reactivation_keeps_confirmation:
  "(case copy_click True 1 example_page of
      Inl e \<Rightarrow> False
    | Inr s1 \<Rightarrow>
        (case copy_click True 1 (advance 1000 s1) of
           Inl e \<Rightarrow> False
         | Inr s2 \<Rightarrow>
             node_children (advance 2000 s2) 1 = js ''Copy'' \<and>
             node_children (advance 3000 s2) 1 = copied_markup \<and>
             node_children (advance 60000 s2) 1 = copied_markup))"
  by (simp add: copy_click_def copy_click_begin_def example_page_def copy_fulfilled_def
      showToast_def Let_def appendChild_def setTimeout_def textToCopy_def js_or_def truthy_def
      advance.simps next_due_def run_task_def parentElement_def node_remove_def
      set_node_innerHTML_def node_innerHTML_def timer_delay_literals example_host_parse
      example_host_parse_markup)

section \<open>Properties of the dropdowns\<close>

lemma fold_clear:
  "fold (\<lambda>other a. if P other then a(other := False) else a) xs active x =
     (if x \<in> set xs \<and> P x then False else active x)"
  by (induction xs arbitrary: active) auto

lemma close_others_apply:
  "close_others doc d active x =
     (if x \<in> set (dropdowns doc) \<and> x \<noteq> d then False else active x)"
  unfolding close_others_def by (rule fold_clear)

lemma document_listener_apply:
  "document_listener doc active x = (if x \<in> set (dropdowns doc) then False else active x)"
proof -
  have "fold (\<lambda>dropdown a. a(dropdown := False)) xs a x = (if x \<in> set xs then False else a x)"
    for xs a
    by (induction xs arbitrary: a) auto
  then show ?thesis by (simp add: document_listener_def)
qed

lemma trigger_listener_apply:
  "trigger_listener doc d active x =
     (if x = d then \<not> active d
      else if x \<in> set (dropdowns doc) then False else active x)"
  by (simp add: trigger_listener_def Let_def close_others_apply)

lemma fold_trigger_at_most_one:
  "ls \<noteq> [] \<Longrightarrow> x \<in> set (dropdowns doc) \<Longrightarrow> y \<in> set (dropdowns doc) \<Longrightarrow>
   fold (trigger_listener doc) ls active x \<Longrightarrow> fold (trigger_listener doc) ls active y \<Longrightarrow>
   x = y"
proof (induction ls arbitrary: active rule: rev_induct)
  case Nil
  then show ?case by simp
next
  case (snoc d ls)
  from snoc.prems(4,5) snoc.prems(2,3) show ?case
    by (simp add: trigger_listener_apply split: if_splits)
qed

lemma click_reaches_trigger:
  "\<forall>n\<in>set pre. listeners_on doc n = [] \<Longrightarrow> listeners_on doc b \<noteq> [] \<Longrightarrow>
   click doc (pre @ b # post) active = fold (trigger_listener doc) (listeners_on doc b) active"
  by (induction pre) simp_all

lemma click_reaches_document:
  "\<forall>n\<in>set path. listeners_on doc n = [] \<Longrightarrow> click doc path active = document_listener doc active"
  by (induction path) simp_all

text \<open>
  C8, amended. Let a click bubble to a button \<open>b\<close> without meeting a trigger below it.
  If \<open>b\<close> is the trigger of A alone, B is another container, B is open and A is shut,
  then afterwards A is open and B is shut. If \<open>b\<close> is a trigger at all, at most one
  container of the node list is open afterwards. And a click whose path meets no
  container (a trigger lying inside its container) shuts every container, whatever was
  open before.
\<close>

theorem dropdown_click_exclusive:
  assumes pre: "\<forall>n\<in>set pre. listeners_on doc n = []"
  shows "(listeners_on doc b = [A] \<and> B \<in> set (dropdowns doc) \<and> B \<noteq> A \<and>
            active B \<and> \<not> active A \<longrightarrow>
            click doc (pre @ b # post) active A \<and> \<not> click doc (pre @ b # post) active B) \<and>
         (listeners_on doc b \<noteq> [] \<longrightarrow>
            (\<forall>x\<in>set (dropdowns doc). \<forall>y\<in>set (dropdowns doc).
               click doc (pre @ b # post) active x \<and> click doc (pre @ b # post) active y
               \<longrightarrow> x = y)) \<and>
         (set path \<inter> set (dropdowns doc) = {} \<and>
          (\<forall>d\<in>set (dropdowns doc). \<forall>n. dd_button doc d = Some n \<and> n \<in> set path
               \<longrightarrow> d \<in> set path) \<longrightarrow>
            (\<forall>d\<in>set (dropdowns doc). \<not> click doc path active d))"
proof (intro conjI impI)
  assume h: "listeners_on doc b = [A] \<and> B \<in> set (dropdowns doc) \<and> B \<noteq> A \<and>
             active B \<and> \<not> active A"
  then have "click doc (pre @ b # post) active = trigger_listener doc A active"
    using click_reaches_trigger [OF pre, of b post active] by simp
  with h show "click doc (pre @ b # post) active A"
    by (simp add: trigger_listener_apply)
  from h \<open>click doc (pre @ b # post) active = trigger_listener doc A active\<close>
  show "\<not> click doc (pre @ b # post) active B"
    by (simp add: trigger_listener_apply)
next
  assume ne: "listeners_on doc b \<noteq> []"
  show "\<forall>x\<in>set (dropdowns doc). \<forall>y\<in>set (dropdowns doc).
          click doc (pre @ b # post) active x \<and> click doc (pre @ b # post) active y
          \<longrightarrow> x = y"
    using fold_trigger_at_most_one [OF ne] click_reaches_trigger [OF pre ne, of post active]
    by auto
next
  assume out: "set path \<inter> set (dropdowns doc) = {} \<and>
          (\<forall>d\<in>set (dropdowns doc). \<forall>n. dd_button doc d = Some n \<and> n \<in> set path
               \<longrightarrow> d \<in> set path)"
  have "\<forall>n\<in>set path. listeners_on doc n = []"
  proof
    fix n assume n: "n \<in> set path"
    show "listeners_on doc n = []"
    proof (rule ccontr)
      assume "listeners_on doc n \<noteq> []"
      then obtain d where "d \<in> set (dropdowns doc)" "dd_button doc d = Some n"
        by (auto simp: listeners_on_def filter_empty_conv)
      with out n show False by blast
    qed
  qed
  then have "click doc path active = document_listener doc active"
    by (rule click_reaches_document)
  then show "\<forall>d\<in>set (dropdowns doc). \<not> click doc path active d"
    by (simp add: document_listener_apply)
qed

lemma two_dropdowns_listeners:
  "listeners_on two_dropdowns 11 = [10]" "listeners_on two_dropdowns 10 = []"
  "listeners_on two_dropdowns 30 = []" "dropdowns two_dropdowns = [10, 20]"
  by (simp_all add: listeners_on_def two_dropdowns_def)

theorem dropdown_click_exclusive_witness:
  "click two_dropdowns [11, 10] (\<lambda>n. n = 20) 10 \<and>
   \<not> click two_dropdowns [11, 10] (\<lambda>n. n = 20) 20 \<and>
   \<not> click two_dropdowns [30] (\<lambda>n. n = 10 \<or> n = 20) 10 \<and>
   \<not> click two_dropdowns [30] (\<lambda>n. n = 10 \<or> n = 20) 20"
proof -
  have pre: "\<forall>n\<in>set []. listeners_on two_dropdowns n = []" by simp
  note t = dropdown_click_exclusive [OF pre, of 11 10 20 "\<lambda>n. n = 20" "[10]" "[30]",
      unfolded two_dropdowns_listeners]
  note u = dropdown_click_exclusive [OF pre, of 11 10 20 "\<lambda>n. n = 10 \<or> n = 20" "[10]" "[30]",
      unfolded two_dropdowns_listeners]
  have b: "\<forall>d\<in>set [10, 20::nat]. \<forall>n. dd_button two_dropdowns d = Some n \<and> n \<in> set [30]
             \<longrightarrow> d \<in> set [30]"
    by (simp add: two_dropdowns_def)
  from t have "click two_dropdowns [11, 10] (\<lambda>n. n = 20) 10 \<and>
               \<not> click two_dropdowns [11, 10] (\<lambda>n. n = 20) 20"
    by simp
  moreover from u b have "\<not> click two_dropdowns [30] (\<lambda>n. n = 10 \<or> n = 20) 10 \<and>
               \<not> click two_dropdowns [30] (\<lambda>n. n = 10 \<or> n = 20) 20"
    by simp
  ultimately show ?thesis by simp
qed

text \<open>
  C8, as stated, fails in two ways. With A and B both open, a click on A's trigger
  toggles A shut. And where container B is nested in container A and both found the same
  button, that button carries both listeners: with B open and A shut, A's listener opens
  A and shuts B, then B's listener shuts A and opens B again.
\<close>

theorem dropdown_click_counterexample:
  "\<not> click two_dropdowns [11, 10] (\<lambda>n. n = 10 \<or> n = 20) 10 \<and>
   listeners_on nested_dropdowns 21 = [10, 20] \<and>
   \<not> click nested_dropdowns [21, 20, 10] (\<lambda>n. n = 20) 10 \<and>
   click nested_dropdowns [21, 20, 10] (\<lambda>n. n = 20) 20"
  by (simp add: listeners_on_def two_dropdowns_def nested_dropdowns_def
      trigger_listener_apply)

section \<open>Properties of debounce\<close>



lemma wrapper_state_cases:
  assumes "wrapper_state s"
  obtains (quiet) "db_pending s = []"
    | (armed) h due a where "db_pending s = [(h, due, a)]" "timeout s = Some h"
proof (cases "db_pending s")
  case Nil
  then show ?thesis by (rule quiet)
next
  case (Cons x xs)
  with assms have "xs = []" "timeout s = Some (fst x)"
    by (cases xs; simp add: wrapper_state_def)+
  with Cons show ?thesis by (cases x) (auto intro: armed)
qed


lemma executedFunction_replaces:
  assumes "wrapper_state s"
  shows "executedFunction args s =
           s\<lparr>db_pending := [(db_next_timer s, db_clock s + timer_delay (db_wait s), args)],
             db_next_timer := Suc (db_next_timer s), timeout := Some (db_next_timer s)\<rparr>"
  using assms
  by (cases rule: wrapper_state_cases)
    (auto simp: executedFunction_def Let_def clearTimeout_def split: option.splits)

lemma executedFunction_wrapper_state:
  "wrapper_state s \<Longrightarrow> wrapper_state (executedFunction args s)"
  by (simp add: executedFunction_replaces wrapper_state_def)






section \<open>Properties of the regular expressions and of form validation\<close>




























lemma clearFieldError_keeps:
  "fld_type (clearFieldError f) = fld_type f" "fld_name (clearFieldError f) = fld_name f"
  "fld_value (clearFieldError f) = fld_value f"
  by (simp_all add: clearFieldError_def Let_def)




lemma validateField_nonempty:
  "trim (fld_value f) \<noteq> [] \<Longrightarrow>
   validateField password1 f =
     (case type_rule (clearFieldError f) (trim (fld_value f)) of
        Some message \<Rightarrow> (False, showFieldError (clearFieldError f) message)
      | None \<Rightarrow>
          if fld_name f = js ''password2'' then
            (case password1 of
               None \<Rightarrow> (True, clearFieldError f)
             | Some p \<Rightarrow>
                 if trim (fld_value f) \<noteq> p
                 then (False, showFieldError (clearFieldError f) (js ''Passwords do not match''))
                 else (True, clearFieldError f))
          else (True, clearFieldError f))"
  by (simp add: validateField_def Let_def clearFieldError_keeps)






lemma confirm_field_simps:
  "fld_value (confirm_field v) = v" "fld_name (confirm_field v) = js ''password2''"
  "type_rule (clearFieldError (confirm_field v)) w = None" "\<not> fld_required (confirm_field v)"
  by (simp_all add: confirm_field_def type_rule_def clearFieldError_keeps js_def)

lemma example_values:
  "trim (js '' +234 801 234 5678'') = js ''+234 801 234 5678''"
  "trim (js ''0801 234 5678'') = js ''0801 234 5678''"
  "trim (js ''+2348012345678'') = js ''+2348012345678''"
  "trim (js ''a@b.co'') = js ''a@b.co''"
  "trim (js ''not-an-email'') = js ''not-an-email''"
  "trim (js ''abc12345'') = js ''abc12345''"
  "trim (js ''different'') = js ''different''"
  "trim (js ''abc12345 '') = js ''abc12345''"
  by (simp_all add: trim_def is_space_def js_def)












text \<open>
  Why the amended C2 asks for no white space at the ends: the value of \<open>password2\<close> is
  trimmed before the comparison and that of \<open>password1\<close> is not, so two equal values that
  end in a space are reported as different.
\<close>

lemma password_confirmation_trims_one_side:
  "validateField (Some (js ''abc12345 '')) (confirm_field (js ''abc12345 ''))
     = (False, showFieldError (clearFieldError (confirm_field (js ''abc12345 '')))
                 (js ''Passwords do not match''))"
proof -
  have ne: "js ''abc12345'' \<noteq> []" "js ''abc12345'' \<noteq> js ''abc12345 ''"
    by (simp_all add: js_def)
  show ?thesis
    using ne by (simp add: validateField_nonempty example_values confirm_field_simps)
qed

end
